theory Spec2Isabelle
  imports Complex_Main
begin

section \<open>Configuration (app/core/config.py)\<close>

text \<open>
  The fields of \<^verbatim>\<open>Settings\<close> that the modelled functions read. The values can be
  overridden from the environment, so the functions below take the settings as an
  argument; \<open>settings\<close> is the instance built from the declared defaults.
\<close>

record Settings =
  max_page_size :: int
  supported_languages :: "string list"
  default_language :: string

definition settings :: Settings where
  "settings = \<lparr> max_page_size = 100,
                supported_languages = [''uz'', ''ru'', ''en''],
                default_language = ''uz'' \<rparr>"

section \<open>Pagination (app/services/utils.py)\<close>

text \<open>
  \<^verbatim>\<open>
  def validate_pagination_params(skip, limit):
      skip = max(0, skip)
      limit = max(1, min(limit, settings.max_page_size))
      return skip, limit
  \<close>
  Python integers are unbounded: \<open>int\<close>.
\<close>

definition validate_pagination_params :: "Settings \<Rightarrow> int \<Rightarrow> int \<Rightarrow> int \<times> int" where
  "validate_pagination_params cfg skip limit =
     (let skip' = max 0 skip;
          limit' = max 1 (min limit (max_page_size cfg))
      in (skip', limit'))"

section \<open>Python strings\<close>

text \<open>
  A Python \<^verbatim>\<open>str\<close> is modelled as a \<open>string\<close>, a list of 8-bit characters. That is
  exact for header values, which the framework decodes as Latin-1, one character per
  byte; for other strings the model covers the characters up to code point 255.
\<close>

text \<open>\<^verbatim>\<open>s.split(c)\<close> for a one-character separator: never the empty list.\<close>

fun py_split :: "char \<Rightarrow> string \<Rightarrow> string list" where
  "py_split c [] = [[]]"
| "py_split c (x # xs) =
     (if x = c then [] # py_split c xs
      else (case py_split c xs of
              w # ws \<Rightarrow> (x # w) # ws
            | [] \<Rightarrow> [[x]]))"

text \<open>
  The characters \<^verbatim>\<open>str.strip()\<close> removes (\<^verbatim>\<open>str.isspace\<close>) in the Latin-1 range:
  TAB, LF, VT, FF, CR, FS, GS, RS, US, space, NEL and the no-break space.
\<close>

definition py_isspace :: "char \<Rightarrow> bool" where
  "py_isspace c \<longleftrightarrow>
     c \<in> set [CHR 0x09, CHR 0x0A, CHR 0x0B, CHR 0x0C, CHR 0x0D,
              CHR 0x1C, CHR 0x1D, CHR 0x1E, CHR 0x1F, CHR 0x20, CHR 0x85, CHR 0xA0]"

definition py_strip :: "string \<Rightarrow> string" where
  "py_strip s = rev (dropWhile py_isspace (rev (dropWhile py_isspace s)))"

text \<open>
  \<^verbatim>\<open>str.lower()\<close> in the Latin-1 range: A-Z and the accented capitals 0xC0-0xDE
  (but not the multiplication sign 0xD7) move up by 32.
\<close>

definition py_lower_char :: "char \<Rightarrow> char" where
  "py_lower_char c =
     (let n = (of_char c :: nat)
      in if (65 \<le> n \<and> n \<le> 90) \<or> (192 \<le> n \<and> n \<le> 222 \<and> n \<noteq> 215)
         then char_of (n + 32) else c)"

definition py_lower :: "string \<Rightarrow> string" where
  "py_lower s = map py_lower_char s"

text \<open>
  \<^verbatim>\<open>xs.sort(key=f, reverse=True)\<close>: descending by key and stable, entries with equal
  keys keep their order. CPython reverses the list, sorts it ascending and stable, and
  reverses it again; \<open>sort_key\<close> is the stable insertion sort. The keys are taken from a
  linear order, which the floats are apart from NaN: a NaN key is outside this model.
\<close>

definition py_sort_desc :: "('a \<Rightarrow> 'k::linorder) \<Rightarrow> 'a list \<Rightarrow> 'a list" where
  "py_sort_desc f xs = rev (sort_key f (rev xs))"

section \<open>Language negotiation (app/middlewares/language.py)\<close>

text \<open>
  What \<^verbatim>\<open>_detect_language\<close> reads of a request: \<^verbatim>\<open>request.query_params.get('lang')\<close>
  and the \<^verbatim>\<open>Accept-Language\<close> header, each \<open>None\<close> when absent.
\<close>

record Request =
  lang_param :: "string option"
  accept_language :: "string option"

text \<open>
  The body of the loop over the header's entries, up to the membership test: the language
  and the quality value of one entry.
  \<^verbatim>\<open>
  if ';' in lang_tag:
      lang, quality = lang_tag.split(';', 1)
      try:
          quality_value = float(quality.split('=')[1])
      except (IndexError, ValueError):
          quality_value = 1.0
  else:
      lang = lang_tag
      quality_value = 1.0
  lang = lang.strip().lower()
  if '-' in lang:
      lang = lang.split('-')[0]
  \<close>
  Python's built-in \<^verbatim>\<open>float\<close> is the argument \<open>pyfloat\<close>: \<open>None\<close> where it raises
  ValueError, the number it returns otherwise; \<open>one\<close> is the float 1.0. The weights are of
  any linear order \<open>'w\<close>, so the finite doubles and the infinities are covered, NaN is not.
  With a \<^verbatim>\<open>;\<close> in the entry, \<^verbatim>\<open>split(';', 1)\<close> gives the text before the first \<^verbatim>\<open>;\<close> and
  the text after it.
\<close>

definition parse_lang_tag :: "(string \<Rightarrow> 'w option) \<Rightarrow> 'w \<Rightarrow> string \<Rightarrow> string \<times> 'w" where
  "parse_lang_tag pyfloat one lang_tag =
     (let (lang, quality_value) =
            (if CHR '';'' \<in> set lang_tag then
               (let lang = takeWhile (\<lambda>x. x \<noteq> CHR '';'') lang_tag;
                    quality = tl (dropWhile (\<lambda>x. x \<noteq> CHR '';'') lang_tag)
                in (lang,
                    (case py_split CHR ''='' quality of
                       _ # v # _ \<Rightarrow> (case pyfloat v of Some w \<Rightarrow> w | None \<Rightarrow> one)
                     | _ \<Rightarrow> one)))
             else (lang_tag, one));
          lang = py_lower (py_strip lang);
          lang = (if CHR ''-'' \<in> set lang
                  then (case py_split CHR ''-'' lang of x # _ \<Rightarrow> x | [] \<Rightarrow> lang)
                  else lang)
      in (lang, quality_value))"

text \<open>The loop: the entries whose language is supported, in the header's order.\<close>

fun parse_accept_language ::
  "Settings \<Rightarrow> (string \<Rightarrow> 'w option) \<Rightarrow> 'w \<Rightarrow> string list \<Rightarrow> (string \<times> 'w) list" where
  "parse_accept_language cfg pyfloat one [] = []"
| "parse_accept_language cfg pyfloat one (lang_tag # rest) =
     (let (lang, quality_value) = parse_lang_tag pyfloat one lang_tag
      in if lang \<in> set (supported_languages cfg)
         then (lang, quality_value) # parse_accept_language cfg pyfloat one rest
         else parse_accept_language cfg pyfloat one rest)"

text \<open>
  \<^verbatim>\<open>
  lang_param = request.query_params.get('lang')
  if lang_param and lang_param in settings.supported_languages:
      return lang_param
  accept_language = request.headers.get('Accept-Language', '')
  ... the loop ...
  languages.sort(key=lambda x: x[1], reverse=True)
  if languages:
      return languages[0][0]
  return settings.default_language
  \<close>
  An empty \<^verbatim>\<open>lang\<close> parameter is falsy.
\<close>

definition language_from_header ::
  "Settings \<Rightarrow> (string \<Rightarrow> 'w::linorder option) \<Rightarrow> 'w \<Rightarrow> Request \<Rightarrow> string" where
  "language_from_header cfg pyfloat one request =
     (let header = (case accept_language request of Some h \<Rightarrow> h | None \<Rightarrow> []);
          languages = parse_accept_language cfg pyfloat one
                        (py_split CHR '','' header);
          languages = py_sort_desc snd languages
      in (case languages of
            (lang, _) # _ \<Rightarrow> lang
          | [] \<Rightarrow> default_language cfg))"

definition detect_language ::
  "Settings \<Rightarrow> (string \<Rightarrow> 'w::linorder option) \<Rightarrow> 'w \<Rightarrow> Request \<Rightarrow> string" where
  "detect_language cfg pyfloat one request =
     (case lang_param request of
        Some l \<Rightarrow>
          if l \<noteq> [] \<and> l \<in> set (supported_languages cfg)
          then l
          else language_from_header cfg pyfloat one request
      | None \<Rightarrow> language_from_header cfg pyfloat one request)"

section \<open>Helpers for the negotiation theorems\<close>

text \<open>
  Which entry a stable descending sort puts first: index \<open>i\<close> holds a greatest key, and
  every earlier key is strictly smaller.
\<close>

definition first_max_at :: "('a \<Rightarrow> 'k::linorder) \<Rightarrow> 'a list \<Rightarrow> nat \<Rightarrow> bool" where
  "first_max_at f xs i \<longleftrightarrow>
     i < length xs \<and> (\<forall>j < length xs. f (xs ! j) \<le> f (xs ! i)) \<and> (\<forall>j < i. f (xs ! j) < f (xs ! i))"

subsection \<open>A reading function for the concrete headers\<close>

text \<open>
  The theorems below hold for every reading function \<open>pyfloat\<close>. The concrete headers of
  the witnesses need one that computes: \<open>decimal_float\<close> reads an unsigned decimal
  literal (digits with at most one point, surrounding whitespace allowed) as the rational
  it denotes, and nothing else. Python's \<^verbatim>\<open>float\<close> reads more (signs, exponents,
  underscores, \<^verbatim>\<open>inf\<close>, \<^verbatim>\<open>nan\<close>) and rounds to the nearest double; rounding is
  monotone and keeps 0.3, 0.5, 0.8, 0.9 and 1.0 apart, so on the literals used below the
  comparisons are those of Python.
\<close>

definition digit_of :: "char \<Rightarrow> nat option" where
  "digit_of c = (let n = (of_char c :: nat) in if 48 \<le> n \<and> n \<le> 57 then Some (n - 48) else None)"

fun digits_val :: "nat \<Rightarrow> string \<Rightarrow> nat option" where
  "digits_val acc [] = Some acc"
| "digits_val acc (c # cs) =
     (case digit_of c of None \<Rightarrow> None | Some d \<Rightarrow> digits_val (10 * acc + d) cs)"

definition decimal_float :: "string \<Rightarrow> rat option" where
  "decimal_float s =
     (let t = py_strip s;
          ip = takeWhile (\<lambda>x. x \<noteq> CHR ''.'') t;
          fp = (if CHR ''.'' \<in> set t then tl (dropWhile (\<lambda>x. x \<noteq> CHR ''.'') t) else [])
      in if ip = [] \<and> fp = [] then None
         else (case (digits_val 0 ip, digits_val 0 fp) of
                 (Some a, Some b) \<Rightarrow> Some (of_nat a + of_nat b / 10 ^ length fp)
               | _ \<Rightarrow> None))"

subsection \<open>The weight as the specification words it\<close>




section \<open>Localized fields (app/middlewares/language.py, app/services/utils.py)\<close>

text \<open>
  The value of a multilingual attribute or payload entry: \<^verbatim>\<open>None\<close> or a \<^verbatim>\<open>str\<close>. An
  entity is the map from its attribute names to their values; \<^verbatim>\<open>getattr(obj, name, None)\<close>
  gives \<^verbatim>\<open>None\<close> for a name the entity does not have. A value is truthy when it is a
  non-empty string.
\<close>

datatype pyval = PyNone | PyStr string

datatype py_exception = AttributeError | LookupError | OtherException

type_synonym entity = "string \<Rightarrow> pyval option"

definition getattr_default :: "entity \<Rightarrow> string \<Rightarrow> pyval" where
  "getattr_default obj name = (case obj name of Some v \<Rightarrow> v | None \<Rightarrow> PyNone)"

fun truthy :: "pyval \<Rightarrow> bool" where
  "truthy PyNone = False"
| "truthy (PyStr s) = (s \<noteq> [])"

text \<open>\<^verbatim>\<open>f"{field_prefix}_{language}"\<close>\<close>

definition field_name :: "string \<Rightarrow> string \<Rightarrow> string" where
  "field_name field_prefix language = field_prefix @ ''_'' @ language"

text \<open>
  \<^verbatim>\<open>
  def get_localized_model_field(obj, field_prefix, language):
      field_name = f"{field_prefix}_{language}"
      value = getattr(obj, field_name, None)
      if value:
          return value
      for fallback_lang in settings.supported_languages:
          if fallback_lang != language:
              fallback_field = f"{field_prefix}_{fallback_lang}"
              fallback_value = getattr(obj, fallback_field, None)
              if fallback_value:
                  return fallback_value
      return ""
  \<close>
\<close>

fun fallback_loop :: "entity \<Rightarrow> string \<Rightarrow> string \<Rightarrow> string list \<Rightarrow> pyval" where
  "fallback_loop obj field_prefix language [] = PyStr []"
| "fallback_loop obj field_prefix language (fallback_lang # rest) =
     (if fallback_lang \<noteq> language then
        (let fallback_field = field_name field_prefix fallback_lang;
             fallback_value = getattr_default obj fallback_field
         in if truthy fallback_value then fallback_value
            else fallback_loop obj field_prefix language rest)
      else fallback_loop obj field_prefix language rest)"

definition get_localized_model_field :: "Settings \<Rightarrow> entity \<Rightarrow> string \<Rightarrow> string \<Rightarrow> pyval" where
  "get_localized_model_field cfg obj field_prefix language =
     (let value = getattr_default obj (field_name field_prefix language)
      in if truthy value then value
         else fallback_loop obj field_prefix language (supported_languages cfg))"

text \<open>
  \<^verbatim>\<open>
  def get_localized_content(obj, field_prefix, language):
      field_name = f"{field_prefix}_{language}"
      content = getattr(obj, field_name, None)
      if not content:
          fallback_languages = ["uz", "ru", "en"]
          for fallback_lang in fallback_languages:
              if fallback_lang != language:
                  fallback_field = f"{field_prefix}_{fallback_lang}"
                  content = getattr(obj, fallback_field, None)
                  if content:
                      break
      return content or ""
  \<close>
  The loop carries \<^verbatim>\<open>content\<close>: after a run without \<^verbatim>\<open>break\<close> it holds the last value
  read, which is falsy.
\<close>

fun content_loop :: "entity \<Rightarrow> string \<Rightarrow> string \<Rightarrow> pyval \<Rightarrow> string list \<Rightarrow> pyval" where
  "content_loop obj field_prefix language content [] = content"
| "content_loop obj field_prefix language content (fallback_lang # rest) =
     (if fallback_lang \<noteq> language then
        (let content' = getattr_default obj (field_name field_prefix fallback_lang)
         in if truthy content' then content'
            else content_loop obj field_prefix language content' rest)
      else content_loop obj field_prefix language content rest)"

definition get_localized_content :: "entity \<Rightarrow> string \<Rightarrow> string \<Rightarrow> pyval" where
  "get_localized_content obj field_prefix language =
     (let content = getattr_default obj (field_name field_prefix language);
          content = (if \<not> truthy content
                     then content_loop obj field_prefix language content [''uz'', ''ru'', ''en'']
                     else content)
      in if truthy content then content else PyStr [])"



subsection \<open>The resolver as the specification words it\<close>

text \<open>
  \<open>field_value\<close> is the value read for one language. \<open>spec_resolve_field\<close> follows the three
  steps of the specification over a language list: the value of the requested language
  when it is non-empty; else the first non-empty value met going through the list in its
  order, the requested language skipped; else the empty string.
\<close>

definition field_value :: "entity \<Rightarrow> string \<Rightarrow> string \<Rightarrow> pyval" where
  "field_value obj field_prefix l = getattr_default obj (field_name field_prefix l)"

definition spec_resolve_field :: "string list \<Rightarrow> entity \<Rightarrow> string \<Rightarrow> string \<Rightarrow> pyval" where
  "spec_resolve_field langs obj field_prefix language =
     (if truthy (field_value obj field_prefix language) then field_value obj field_prefix language
      else (case find (\<lambda>l. truthy (field_value obj field_prefix l))
                      (filter (\<lambda>l. l \<noteq> language) langs) of
              Some l \<Rightarrow> field_value obj field_prefix l
            | None \<Rightarrow> PyStr []))"

section \<open>Authentication and authorization (app/api/v1/auth.py, app/services/auth_service.py)\<close>

text \<open>
  A row of the table \<^verbatim>\<open>users\<close> (app/db/models/user.py), with the columns the modelled
  functions read or write; the column \<^verbatim>\<open>id\<close> is \<open>id_col\<close>. A timestamp is a number. The
  database is the list of the rows in storage order: \<^verbatim>\<open>query(User).filter(c).first()\<close> is
  the first row that satisfies \<open>c\<close>, and a write to the object it returned followed by
  \<^verbatim>\<open>db.commit()\<close> changes that row.
\<close>

record User =
  id_col :: int
  username :: string
  email :: string
  hashed_password :: string
  is_active :: bool
  is_admin :: bool
  is_moderator :: bool
  last_login :: "nat option"

type_synonym database = "User list"

fun update_first :: "('a \<Rightarrow> bool) \<Rightarrow> ('a \<Rightarrow> 'a) \<Rightarrow> 'a list \<Rightarrow> 'a list" where
  "update_first c f [] = []"
| "update_first c f (x # xs) = (if c x then f x # xs else x # update_first c f xs)"

text \<open>The outcomes of a request that does not return: the status of the HTTPException
  raised, or the status 500 of an exception nobody handles.\<close>

datatype http_error = Unauthorized | Forbidden | InternalServerError

text \<open>
  The claims of a decoded token that the handlers read. \<^verbatim>\<open>payload.get("sub")\<close> is
  \<open>SubAbsent\<close> when it is \<^verbatim>\<open>None\<close>; the handlers pass any other value to \<^verbatim>\<open>int\<close>, which
  returns a number (\<open>SubInt\<close>) or raises (\<open>SubNotInt\<close>). \<^verbatim>\<open>payload.get("type")\<close> is
  \<open>None\<close> or a string.
\<close>

datatype sub_claim = SubAbsent | SubInt int | SubNotInt

record Payload =
  sub :: sub_claim
  token_type :: "string option"

text \<open>
  \<^verbatim>\<open>decode_token\<close> is imported from app/core/security.py, which is not among the sources:
  the handlers take it as the argument \<open>decode\<close>, from a token to the claims or to the
  error it raises.
  \<^verbatim>\<open>
  def get_current_user(credentials, db):
      token = credentials.credentials
      payload = decode_token(token)
      user_id = payload.get("sub")
      if user_id is None:
          raise HTTPException(status_code=401, ...)
      user = db.query(User).filter(User.id == int(user_id)).first()
      if user is None or not user.is_active:
          raise HTTPException(status_code=401, ...)
      return user
  \<close>
  The function returns its result together with the database it leaves, which it only reads.
\<close>

definition get_current_user ::
  "('t \<Rightarrow> http_error + Payload) \<Rightarrow> database \<Rightarrow> 't \<Rightarrow> (http_error + User) \<times> database" where
  "get_current_user decode db token =
     (case decode token of
        Inl e \<Rightarrow> (Inl e, db)
      | Inr payload \<Rightarrow>
          (case sub payload of
             SubAbsent \<Rightarrow> (Inl Unauthorized, db)
           | SubNotInt \<Rightarrow> (Inl InternalServerError, db)
           | SubInt user_id \<Rightarrow>
               (case find (\<lambda>u. id_col u = user_id) db of
                  None \<Rightarrow> (Inl Unauthorized, db)
                | Some user \<Rightarrow>
                    if \<not> is_active user then (Inl Unauthorized, db)
                    else (Inr user, db))))"

text \<open>
  \<^verbatim>\<open>
  def get_admin_user(current_user = Depends(get_current_user)):
      if not current_user.is_admin:
          raise HTTPException(status_code=403, ...)
      return current_user

  def get_moderator_user(current_user = Depends(get_current_user)):
      if not (current_user.is_admin or current_user.is_moderator):
          raise HTTPException(status_code=403, ...)
      return current_user
  \<close>
  \<open>depends_current_user\<close> is the framework's \<^verbatim>\<open>Depends(get_current_user)\<close>: the dependency
  runs first and its error ends the request.
\<close>

definition get_admin_user :: "User \<Rightarrow> http_error + User" where
  "get_admin_user current_user =
     (if \<not> is_admin current_user then Inl Forbidden else Inr current_user)"

definition get_moderator_user :: "User \<Rightarrow> http_error + User" where
  "get_moderator_user current_user =
     (if \<not> (is_admin current_user \<or> is_moderator current_user) then Inl Forbidden
      else Inr current_user)"

definition depends_current_user ::
  "(User \<Rightarrow> http_error + User) \<Rightarrow> ('t \<Rightarrow> http_error + Payload) \<Rightarrow> database \<Rightarrow> 't
     \<Rightarrow> http_error + User" where
  "depends_current_user gate decode db token =
     (case fst (get_current_user decode db token) of
        Inl e \<Rightarrow> Inl e
      | Inr current_user \<Rightarrow> gate current_user)"

text \<open>
  \<^verbatim>\<open>
  def verify_user_permissions(user, required_role):
      if not user.is_active:
          return False
      if required_role == "admin":
          return user.is_admin
      elif required_role == "moderator":
          return user.is_admin or user.is_moderator
      elif required_role == "user":
          return True
      return False
  \<close>
\<close>

definition verify_user_permissions :: "User \<Rightarrow> string \<Rightarrow> bool" where
  "verify_user_permissions user required_role =
     (if \<not> is_active user then False
      else if required_role = ''admin'' then is_admin user
      else if required_role = ''moderator'' then is_admin user \<or> is_moderator user
      else if required_role = ''user'' then True
      else False)"

text \<open>
  \<^verbatim>\<open>
  async def refresh_token(credentials, db):
      token = credentials.credentials
      payload = decode_token(token)
      if payload.get("type") != "refresh":
          raise HTTPException(status_code=401, ...)
      user_id = payload.get("sub")
      user = db.query(User).filter(User.id == int(user_id)).first()
      if not user or not user.is_active:
          raise HTTPException(status_code=401, ...)
      access_token = create_access_token(subject=user.id)
      refresh_token = create_refresh_token(subject=user.id)
      return {"access_token": ..., "refresh_token": ..., "token_type": "bearer"}
  \<close>
  \<^verbatim>\<open>create_access_token\<close> and \<^verbatim>\<open>create_refresh_token\<close> are of app/core/security.py too:
  \<open>create_tokens\<close> stands for the pair they issue for a subject. Here \<^verbatim>\<open>int(None)\<close> raises.
\<close>

definition refresh_token ::
  "('t \<Rightarrow> http_error + Payload) \<Rightarrow> (int \<Rightarrow> 'r) \<Rightarrow> database \<Rightarrow> 't \<Rightarrow> (http_error + 'r) \<times> database" where
  "refresh_token decode create_tokens db token =
     (case decode token of
        Inl e \<Rightarrow> (Inl e, db)
      | Inr payload \<Rightarrow>
          if token_type payload \<noteq> Some ''refresh'' then (Inl Unauthorized, db)
          else
            (case sub payload of
               SubAbsent \<Rightarrow> (Inl InternalServerError, db)
             | SubNotInt \<Rightarrow> (Inl InternalServerError, db)
             | SubInt user_id \<Rightarrow>
                 (case find (\<lambda>u. id_col u = user_id) db of
                    None \<Rightarrow> (Inl Unauthorized, db)
                  | Some user \<Rightarrow>
                      if \<not> is_active user then (Inl Unauthorized, db)
                      else (Inr (create_tokens (id_col user)), db))))"

text \<open>
  \<^verbatim>\<open>
  async def login(user_credentials, db):
      user = get_user_by_username(db, user_credentials.username)
      if not user or not verify_password(user_credentials.password, user.hashed_password):
          raise HTTPException(status_code=401, ...)
      if not user.is_active:
          raise HTTPException(status_code=401, ...)
      user.last_login = datetime.utcnow()
      db.commit()
      access_token = create_access_token(subject=user.id)
      refresh_token = create_refresh_token(subject=user.id)
      return {...}
  \<close>
  \<^verbatim>\<open>verify_password\<close> is of app/core/security.py: an argument. \<open>now\<close> is the clock's
  \<^verbatim>\<open>datetime.utcnow()\<close>.
\<close>

definition login ::
  "(string \<Rightarrow> string \<Rightarrow> bool) \<Rightarrow> (int \<Rightarrow> 'r) \<Rightarrow> nat \<Rightarrow> database \<Rightarrow> string \<Rightarrow> string
     \<Rightarrow> (http_error + 'r) \<times> database" where
  "login verify_password create_tokens now db login_username login_password =
     (case find (\<lambda>u. username u = login_username) db of
        None \<Rightarrow> (Inl Unauthorized, db)
      | Some user \<Rightarrow>
          if \<not> verify_password login_password (hashed_password user)
          then (Inl Unauthorized, db)
          else if \<not> is_active user then (Inl Unauthorized, db)
          else
            (let db' = update_first (\<lambda>u. username u = login_username)
                                    (\<lambda>u. u\<lparr>last_login := Some now\<rparr>) db
             in (Inr (create_tokens (id_col user)), db')))"

text \<open>
  \<^verbatim>\<open>
  def authenticate_user(db, username, password):
      user = db.query(User).filter(
          (User.username == username) | (User.email == username)).first()
      if not user:
          return None
      if not verify_password(password, user.hashed_password):
          return None
      if not user.is_active:
          return None
      user.last_login = datetime.utcnow()
      db.commit()
      return user
  \<close>
\<close>

definition authenticate_user ::
  "(string \<Rightarrow> string \<Rightarrow> bool) \<Rightarrow> nat \<Rightarrow> database \<Rightarrow> string \<Rightarrow> string
     \<Rightarrow> User option \<times> database" where
  "authenticate_user verify_password now db name password =
     (case find (\<lambda>u. username u = name \<or> email u = name) db of
        None \<Rightarrow> (None, db)
      | Some user \<Rightarrow>
          if \<not> verify_password password (hashed_password user) then (None, db)
          else if \<not> is_active user then (None, db)
          else
            (let db' = update_first (\<lambda>u. username u = name \<or> email u = name)
                                    (\<lambda>u. u\<lparr>last_login := Some now\<rparr>) db
             in (Some (user\<lparr>last_login := Some now\<rparr>), db')))"

subsection \<open>The token service as the specification describes it\<close>

text \<open>
  Modelled from the spec: app/core/security.py (\<^verbatim>\<open>decode_token\<close>) is not among the
  sources. By section 4.1, decoding verifies the signature and the expiry and parses the
  claims, failing with InvalidToken, ExpiredToken or MalformedToken, which the gate
  surfaces as Unauthorized (section 7); access and refresh tokens differ only in the type
  claim and the lifetime, and the service does not enforce which endpoint accepts which
  type. A token is described by what decoding checks.
\<close>

record Token =
  signature_valid :: bool
  expired :: bool
  claims :: "Payload option"

definition decode_token :: "Token \<Rightarrow> http_error + Payload" where
  "decode_token token =
     (if \<not> signature_valid token then Inl Unauthorized
      else if expired token then Inl Unauthorized
      else (case claims token of
              None \<Rightarrow> Inl Unauthorized
            | Some payload \<Rightarrow> Inr payload))"

subsection \<open>A sample database\<close>

text \<open>
  Three rows for the concrete runs: an active administrator, an active moderator and a
  deactivated account that still carries both role flags. \<open>issued_token ty subject\<close> is a
  token with a valid signature, not expired, for the given subject and type claim.
  \<open>reversed_hash\<close> stands for \<^verbatim>\<open>verify_password\<close> in the concrete runs: the stored hash of
  a password is the password reversed.
\<close>

definition admin_row :: User where
  "admin_row = \<lparr> id_col = 1, username = ''admin'', email = ''admin@example.org'',
                 hashed_password = ''terces'', is_active = True, is_admin = True,
                 is_moderator = False, last_login = None \<rparr>"

definition editor_row :: User where
  "editor_row = \<lparr> id_col = 2, username = ''editor'', email = ''editor@example.org'',
                  hashed_password = ''drowssap'', is_active = True, is_admin = False,
                  is_moderator = True, last_login = None \<rparr>"

definition retired_row :: User where
  "retired_row = \<lparr> id_col = 3, username = ''retired'', email = ''retired@example.org'',
                   hashed_password = ''dlo'', is_active = False, is_admin = True,
                   is_moderator = True, last_login = Some 7 \<rparr>"

definition sample_db :: database where
  "sample_db = [admin_row, editor_row, retired_row]"

definition issued_token :: "string \<Rightarrow> int \<Rightarrow> Token" where
  "issued_token ty subject =
     \<lparr> signature_valid = True, expired = False,
       claims = Some \<lparr> sub = SubInt subject, token_type = Some ty \<rparr> \<rparr>"


section \<open>Theorems\<close>

subsection \<open>Sorting\<close>

lemma parse_accept_language_filter:
  "parse_accept_language cfg pf one tags
     = filter (\<lambda>e. fst e \<in> set (supported_languages cfg)) (map (parse_lang_tag pf one) tags)"
  by (induction tags) (auto simp: Let_def split: prod.splits)

lemma last_insort_key:
  "sorted (map f T) \<Longrightarrow> T \<noteq> [] \<Longrightarrow>
     last (insort_key f x T) = (if f (last T) < f x then x else last T)"
proof (induction T)
  case Nil then show ?case by simp
next
  case (Cons y ys)
  show ?case
  proof (cases ys)
    case Nil then show ?thesis by auto
  next
    case (Cons z zs)
    with Cons.prems Cons.IH show ?thesis by (auto simp: not_less)
  qed
qed

lemma sort_key_Nil_iff: "sort_key f xs = [] \<longleftrightarrow> xs = []"
  by (metis length_sort length_0_conv)

lemma last_sort_rev:
  "xs \<noteq> [] \<Longrightarrow> \<exists>i. first_max_at f xs i \<and> last (sort_key f (rev xs)) = xs ! i"
proof (induction xs rule: rev_induct)
  case Nil then show ?case by simp
next
  case (snoc x ys)
  show ?case
  proof (cases "ys = []")
    case True
    then show ?thesis by (auto simp: first_max_at_def)
  next
    case False
    with snoc.IH obtain i where i: "first_max_at f ys i" "last (sort_key f (rev ys)) = ys ! i"
      by blast
    let ?T = "sort_key f (rev ys)"
    have T: "sorted (map f ?T)" "?T \<noteq> []" using False by (simp_all add: sort_key_Nil_iff)
    have l: "last (sort_key f (rev (ys @ [x]))) = (if f (ys ! i) < f x then x else ys ! i)"
      using last_insort_key [OF T, of x] i(2) by simp
    show ?thesis
    proof (cases "f (ys ! i) < f x")
      case True
      have "first_max_at f (ys @ [x]) (length ys)"
        using i(1) True unfolding first_max_at_def
        by (auto simp: nth_append less_Suc_eq intro: le_less_trans less_imp_le)
      with l True show ?thesis by (metis nth_append_length)
    next
      case False
      have "first_max_at f (ys @ [x]) i"
        using i(1) False unfolding first_max_at_def
        by (auto simp: nth_append less_Suc_eq not_less)
      moreover have "(ys @ [x]) ! i = ys ! i" using i(1) by (simp add: first_max_at_def nth_append)
      ultimately show ?thesis using l False by metis
    qed
  qed
qed

lemma py_sort_desc_hd:
  assumes "xs \<noteq> []"
  shows "\<exists>i. first_max_at f xs i \<and> hd (py_sort_desc f xs) = xs ! i"
proof -
  have "sort_key f (rev xs) \<noteq> []" using assms by (simp add: sort_key_Nil_iff)
  then have "hd (py_sort_desc f xs) = last (sort_key f (rev xs))"
    by (simp add: py_sort_desc_def hd_rev)
  with last_sort_rev [OF assms, of f] show ?thesis by simp
qed

lemma py_sort_desc_Nil: "py_sort_desc f xs = [] \<longleftrightarrow> xs = []"
  by (simp add: py_sort_desc_def sort_key_Nil_iff)

lemma py_sort_desc_empty [simp]: "py_sort_desc f [] = []"
  by (simp add: py_sort_desc_def)

subsection \<open>Language negotiation\<close>

lemma language_from_header_cases:
  fixes pf :: "string \<Rightarrow> 'w::linorder option"
  defines "ents \<equiv> \<lambda>cfg one h. filter (\<lambda>e. fst e \<in> set (supported_languages cfg))
                        (map (parse_lang_tag pf one) (py_split CHR '','' h))"
  shows "language_from_header cfg pf one request =
           (let es = ents cfg one (case accept_language request of Some h \<Rightarrow> h | None \<Rightarrow> [])
            in if es = [] then default_language cfg else fst (hd (py_sort_desc snd es)))"
  by (auto simp: language_from_header_def Let_def parse_accept_language_filter ents_def
                 py_sort_desc_Nil split: list.splits prod.splits)

lemma language_from_header_member:
  assumes "default_language cfg \<in> set (supported_languages cfg)"
  shows "language_from_header cfg pf one request \<in> set (supported_languages cfg)"
proof -
  let ?es = "filter (\<lambda>e. fst e \<in> set (supported_languages cfg))
               (map (parse_lang_tag pf one)
                 (py_split CHR '','' (case accept_language request of Some h \<Rightarrow> h | None \<Rightarrow> [])))"
  show ?thesis
  proof (cases "?es = []")
    case True
    then show ?thesis using assms by (simp add: language_from_header_cases Let_def)
  next
    case False
    from py_sort_desc_hd [OF False, of snd] obtain i where
      i: "i < length ?es" "hd (py_sort_desc snd ?es) = ?es ! i"
      unfolding first_max_at_def by blast
    have "?es ! i \<in> set ?es" using i(1) by (rule nth_mem)
    then have "fst (?es ! i) \<in> set (supported_languages cfg)" by simp
    with False i(2) show ?thesis by (simp add: language_from_header_cases Let_def)
  qed
qed





text \<open>
  C4. A request whose override parameter is a member of the configured language set gets
  that member, whatever the header says. (A language code is not the empty string: an
  empty parameter is falsy and is not taken as an override.)
\<close>

theorem override_selected:
  assumes "l \<in> set (supported_languages cfg)" and "l \<noteq> []"
  shows "detect_language cfg pf one \<lparr>lang_param = Some l, accept_language = h\<rparr> = l"
  using assms by (simp add: detect_language_def)

theorem override_selected_witness:
  "''en'' \<in> set (supported_languages settings)
   \<and> detect_language settings decimal_float 1
        \<lparr>lang_param = Some ''en'', accept_language = Some ''ru;q=1.0, uz;q=0.8''\<rparr> = ''en''"
proof -
  have h: "''en'' \<in> set (supported_languages settings)" by (simp add: settings_def)
  show ?thesis
    using h override_selected [OF h, of decimal_float 1 "Some ''ru;q=1.0, uz;q=0.8''"] by simp
qed

text \<open>
  C6. With a default language that belongs to the configured set, the negotiated language
  always belongs to the configured set, for every override parameter and every header;
  and when no override is valid and no header entry survives the filter, it is the
  default language.
\<close>

theorem detected_language_supported:
  assumes "default_language cfg \<in> set (supported_languages cfg)"
  shows "detect_language cfg pf one request \<in> set (supported_languages cfg)
       \<and> ((\<forall>l. lang_param request = Some l \<longrightarrow> l = [] \<or> l \<notin> set (supported_languages cfg))
            \<and> parse_accept_language cfg pf one
                  (py_split CHR '','' (case accept_language request of Some h \<Rightarrow> h | None \<Rightarrow> [])) = []
            \<longrightarrow> detect_language cfg pf one request = default_language cfg)"
proof -
  have m: "detect_language cfg pf one request \<in> set (supported_languages cfg)"
    using language_from_header_member [OF assms, of pf one request]
    by (auto simp: detect_language_def split: option.splits)
  have "detect_language cfg pf one request = default_language cfg"
    if "\<forall>l. lang_param request = Some l \<longrightarrow> l = [] \<or> l \<notin> set (supported_languages cfg)"
      and "parse_accept_language cfg pf one
             (py_split CHR '','' (case accept_language request of Some h \<Rightarrow> h | None \<Rightarrow> [])) = []"
    using that
    by (auto simp: detect_language_def language_from_header_cases Let_def
                   parse_accept_language_filter split: option.splits)
  with m show ?thesis by blast
qed

text \<open>
  The witness: the declared configuration (default uz), an override and a header that
  name only unconfigured codes, and the empty header.
\<close>

theorem detected_language_supported_witness:
  "default_language settings \<in> set (supported_languages settings)
   \<and> detect_language settings decimal_float 1
        \<lparr>lang_param = Some ''de'', accept_language = Some ''fr;q=0.9, xx''\<rparr> = ''uz''
   \<and> detect_language settings decimal_float 1
        \<lparr>lang_param = None, accept_language = Some []\<rparr> = ''uz''
   \<and> detect_language settings decimal_float 1
        \<lparr>lang_param = None, accept_language = None\<rparr> = ''uz''"
proof -
  have h: "default_language settings \<in> set (supported_languages settings)"
    by (simp add: settings_def)
  have d: "detect_language settings decimal_float 1
             \<lparr>lang_param = Some ''de'', accept_language = Some ''fr;q=0.9, xx''\<rparr> = ''uz''
         \<and> detect_language settings decimal_float 1
             \<lparr>lang_param = None, accept_language = Some []\<rparr> = ''uz''
         \<and> detect_language settings decimal_float 1
             \<lparr>lang_param = None, accept_language = None\<rparr> = ''uz''"
    by code_simp
  show ?thesis
    using h d
      detected_language_supported [OF h, of decimal_float 1
        "\<lparr>lang_param = Some ''de'', accept_language = Some ''fr;q=0.9, xx''\<rparr>"]
    by simp
qed

subsection \<open>Localized fields\<close>


lemma find_SomeD: "find P xs = Some x \<Longrightarrow> P x \<and> x \<in> set xs"
  by (induction xs) (auto split: if_splits)

lemma fallback_loop_find:
  "fallback_loop obj p lang ls =
     (case find (\<lambda>l. truthy (field_value obj p l)) (filter (\<lambda>l. l \<noteq> lang) ls) of
        Some l \<Rightarrow> field_value obj p l
      | None \<Rightarrow> PyStr [])"
  by (induction ls) (simp_all add: Let_def field_value_def)

lemma content_loop_find:
  assumes "\<not> truthy c"
  shows "(if truthy (content_loop obj p lang c ls) then content_loop obj p lang c ls else PyStr []) =
     (case find (\<lambda>l. truthy (field_value obj p l)) (filter (\<lambda>l. l \<noteq> lang) ls) of
        Some l \<Rightarrow> field_value obj p l
      | None \<Rightarrow> PyStr [])"
  using assms
proof (induction ls arbitrary: c)
  case Nil
  then show ?case by simp
next
  case (Cons a ls)
  show ?case
  proof (cases "a = lang")
    case True
    with Cons.IH [OF Cons.prems] show ?thesis by (auto split: if_splits)
  next
    case False
    show ?thesis
    proof (cases "truthy (field_value obj p a)")
      case True
      with False show ?thesis by (simp add: Let_def field_value_def)
    next
      case nt: False
      then have "\<not> truthy (getattr_default obj (field_name p a))" by (simp add: field_value_def)
      from Cons.IH [OF this] nt False show ?thesis
        by (auto simp: Let_def field_value_def split: if_splits)
    qed
  qed
qed



lemma spec_resolve_field_string: "\<exists>s. spec_resolve_field langs obj p lang = PyStr s"
proof -
  have t: "\<exists>s. v = PyStr s" if "truthy v" for v using that by (cases v) simp_all
  show ?thesis
    by (auto simp: spec_resolve_field_def t split: option.splits dest: find_SomeD)
qed

lemma spec_resolve_field_origin:
  "spec_resolve_field langs obj p lang = PyStr []
   \<or> (\<exists>l \<in> set (lang # langs). obj (field_name p l) = Some (spec_resolve_field langs obj p lang))"
proof -
  have t: "obj (field_name p l) = Some (field_value obj p l)" if "truthy (field_value obj p l)" for l
    using that by (auto simp: field_value_def getattr_default_def split: option.splits)
  show ?thesis
  proof (cases "truthy (field_value obj p lang)")
    case True
    then show ?thesis using t [OF True] by (simp add: spec_resolve_field_def)
  next
    case False
    show ?thesis
    proof (cases "find (\<lambda>l. truthy (field_value obj p l)) (filter (\<lambda>l. l \<noteq> lang) langs)")
      case None
      with False show ?thesis by (simp add: spec_resolve_field_def)
    next
      case (Some l)
      then have "truthy (field_value obj p l)" "l \<in> set langs"
        by (auto dest: find_SomeD)
      with False Some t [of l] show ?thesis by (auto simp: spec_resolve_field_def)
    qed
  qed
qed

text \<open>
  C5. For every entity, field prefix and language, \<^verbatim>\<open>get_localized_model_field\<close> returns the
  value of the field \<open>prefix_language\<close> when it is present and non-empty, otherwise the
  first non-empty value met going through the configured language list in its order,
  skipping the requested language, otherwise the empty string; \<^verbatim>\<open>get_localized_content\<close>
  does the same over its fixed list uz, ru, en, which is the declared configured list.
  The result is always a string, and it is empty or the value of one of the entity's own
  fields, never a language code or a key name. With \<open>content_en\<close> the only non-empty
  field, resolving for ru and for en both give its value.
\<close>

theorem localized_field_resolution:
  "get_localized_model_field cfg obj field_prefix language
     = spec_resolve_field (supported_languages cfg) obj field_prefix language
   \<and> get_localized_content obj field_prefix language
     = spec_resolve_field [''uz'', ''ru'', ''en''] obj field_prefix language
   \<and> get_localized_content obj field_prefix language
     = get_localized_model_field settings obj field_prefix language
   \<and> (\<exists>s. get_localized_model_field cfg obj field_prefix language = PyStr s)
   \<and> (get_localized_model_field cfg obj field_prefix language = PyStr []
      \<or> (\<exists>l \<in> set (language # supported_languages cfg).
            obj (field_name field_prefix l)
              = Some (get_localized_model_field cfg obj field_prefix language)))
   \<and> (\<not> truthy (field_value obj ''content'' ''uz'') \<and> \<not> truthy (field_value obj ''content'' ''ru'')
        \<and> field_value obj ''content'' ''en'' = PyStr x
      \<longrightarrow> get_localized_model_field settings obj ''content'' ''ru'' = PyStr x
        \<and> get_localized_model_field settings obj ''content'' ''en'' = PyStr x
        \<and> get_localized_content obj ''content'' ''ru'' = PyStr x
        \<and> get_localized_content obj ''content'' ''en'' = PyStr x)"
proof -
  have m: "get_localized_model_field c obj p l = spec_resolve_field (supported_languages c) obj p l"
    for c p l
    by (simp add: get_localized_model_field_def spec_resolve_field_def fallback_loop_find
                  Let_def field_value_def [symmetric])
  have c: "get_localized_content obj p l = spec_resolve_field [''uz'', ''ru'', ''en''] obj p l"
    for p l
  proof (cases "truthy (field_value obj p l)")
    case True
    then show ?thesis
      by (simp add: get_localized_content_def spec_resolve_field_def Let_def
                    field_value_def [symmetric])
  next
    case False
    then have "\<not> truthy (getattr_default obj (field_name p l))" by (simp add: field_value_def)
    from content_loop_find [OF this, of obj p l "[''uz'', ''ru'', ''en'']"] False
    show ?thesis
      by (simp add: get_localized_content_def spec_resolve_field_def Let_def
                    field_value_def [symmetric])
  qed
  have s: "supported_languages settings = [''uz'', ''ru'', ''en'']" by (simp add: settings_def)
  have e: "spec_resolve_field [''uz'', ''ru'', ''en''] obj ''content'' ''ru'' = PyStr x
         \<and> spec_resolve_field [''uz'', ''ru'', ''en''] obj ''content'' ''en'' = PyStr x"
    if "\<not> truthy (field_value obj ''content'' ''uz'')" "\<not> truthy (field_value obj ''content'' ''ru'')"
       "field_value obj ''content'' ''en'' = PyStr x"
    using that by (cases "x = []") (simp_all add: spec_resolve_field_def)
  show ?thesis
    using spec_resolve_field_string [of "supported_languages cfg" obj field_prefix language]
          spec_resolve_field_origin [of "supported_languages cfg" obj field_prefix language] e
    by (simp add: m c s)
qed

text \<open>
  The witness: an entity whose \<open>content_uz\<close> is empty, whose \<open>content_ru\<close> is \<^verbatim>\<open>None\<close> and
  whose \<open>content_en\<close> is X.
\<close>

theorem localized_field_resolution_witness:
  "get_localized_model_field settings
     [''content_uz'' \<mapsto> PyStr [], ''content_ru'' \<mapsto> PyNone, ''content_en'' \<mapsto> PyStr ''X'']
     ''content'' ''ru'' = PyStr ''X''
   \<and> get_localized_content
     [''content_uz'' \<mapsto> PyStr [], ''content_ru'' \<mapsto> PyNone, ''content_en'' \<mapsto> PyStr ''X'']
     ''content'' ''en'' = PyStr ''X''
   \<and> get_localized_model_field settings
     [''content_uz'' \<mapsto> PyStr [], ''content_ru'' \<mapsto> PyNone, ''content_en'' \<mapsto> PyStr ''X'']
     ''title'' ''ru'' = PyStr []"
proof -
  let ?obj = "[''content_uz'' \<mapsto> PyStr [], ''content_ru'' \<mapsto> PyNone,
               ''content_en'' \<mapsto> PyStr ''X'']"
  have h: "\<not> truthy (field_value ?obj ''content'' ''uz'') \<and> \<not> truthy (field_value ?obj ''content'' ''ru'')
           \<and> field_value ?obj ''content'' ''en'' = PyStr ''X''"
    by (simp add: field_value_def field_name_def getattr_default_def)
  have t: "get_localized_model_field settings ?obj ''title'' ''ru'' = PyStr []"
    by (simp add: get_localized_model_field_def settings_def field_name_def getattr_default_def)
  from localized_field_resolution [of settings ?obj "''content''" "''ru''" "''X''"] h
  have "get_localized_model_field settings ?obj ''content'' ''ru'' = PyStr ''X''
        \<and> get_localized_content ?obj ''content'' ''en'' = PyStr ''X''"
    by blast
  with t show ?thesis by simp
qed



subsection \<open>Authentication and authorization\<close>


lemma refresh_token_rejects_other_types:
  "decode token = Inr payload \<Longrightarrow> token_type payload \<noteq> Some ''refresh'' \<Longrightarrow>
     refresh_token decode create_tokens db token = (Inl Unauthorized, db)"
  by (simp add: refresh_token_def)

lemmas auth_eval =
  refresh_token_def get_current_user_def decode_token_def issued_token_def sample_db_def
  admin_row_def editor_row_def retired_row_def depends_current_user_def get_admin_user_def
  get_moderator_user_def verify_user_permissions_def login_def authenticate_user_def







text \<open>
  Claim C1, the half that the code keeps: the refresh endpoint answers Unauthorized to
  every decoded token whose type claim is not \<^verbatim>\<open>refresh\<close> (lemma
  \<open>refresh_token_rejects_other_types\<close>). The other half fails: \<open>get_current_user\<close> never
  reads the type claim. Whatever \<^verbatim>\<open>decode_token\<close> does, every token that the refresh
  endpoint accepts (so a token whose type claim is \<^verbatim>\<open>refresh\<close>) is accepted by
  \<open>get_current_user\<close> as well, and with it by every gate built on it.
\<close>

theorem refresh_token_passes_get_current_user:
  assumes "fst (refresh_token decode create_tokens db token) = Inr r"
  shows "\<exists>payload user. decode token = Inr payload \<and> token_type payload = Some ''refresh''
           \<and> fst (get_current_user decode db token) = Inr user"
  using assms
  by (auto simp: refresh_token_def get_current_user_def
           split: sum.splits sub_claim.splits option.splits if_splits)

theorem refresh_token_passes_get_current_user_witness:
  "fst (refresh_token decode_token (\<lambda>subject. subject) sample_db (issued_token ''refresh'' 2)) = Inr 2
   \<and> decode_token (issued_token ''refresh'' 2)
       = Inr \<lparr> sub = SubInt 2, token_type = Some ''refresh'' \<rparr>
   \<and> fst (get_current_user decode_token sample_db (issued_token ''refresh'' 2)) = Inr editor_row"
proof -
  have h: "fst (refresh_token decode_token (\<lambda>subject. subject) sample_db
                  (issued_token ''refresh'' 2)) = Inr 2"
    by (simp add: auth_eval)
  have g: "fst (get_current_user decode_token sample_db (issued_token ''refresh'' 2))
             = Inr editor_row"
    by (simp add: auth_eval)
  have d: "decode_token (issued_token ''refresh'' 2)
             = Inr \<lparr> sub = SubInt 2, token_type = Some ''refresh'' \<rparr>"
    by (simp add: auth_eval)
  show ?thesis
    using refresh_token_passes_get_current_user [OF h] h g d by simp
qed

text \<open>
  Claim C2: for a principal \<open>u\<close> reached through a valid token (the token decodes, its
  subject is a number and \<open>u\<close> is the row with that id), \<open>get_current_user\<close> returns \<open>u\<close>
  exactly when \<open>u\<close> is active and answers Unauthorized otherwise; the admin gate succeeds
  exactly when \<open>u\<close> is active and its admin flag is set; the moderator gate succeeds exactly
  when \<open>u\<close> is active and its admin or moderator flag is set; an active principal with
  neither flag gets Forbidden from both gates; an inactive principal gets Unauthorized from
  every gate whatever its flags. \<open>verify_user_permissions\<close> decides the same way.
\<close>

theorem gate_checks:
  assumes "decode token = Inr payload" and "sub payload = SubInt n"
    and "find (\<lambda>u. id_col u = n) db = Some u"
  shows "fst (get_current_user decode db token)
           = (if is_active u then Inr u else Inl Unauthorized)
       \<and> depends_current_user get_admin_user decode db token
           = (if \<not> is_active u then Inl Unauthorized
              else if is_admin u then Inr u else Inl Forbidden)
       \<and> depends_current_user get_moderator_user decode db token
           = (if \<not> is_active u then Inl Unauthorized
              else if is_admin u \<or> is_moderator u then Inr u else Inl Forbidden)
       \<and> verify_user_permissions u ''admin'' = (is_active u \<and> is_admin u)
       \<and> verify_user_permissions u ''moderator'' = (is_active u \<and> (is_admin u \<or> is_moderator u))
       \<and> verify_user_permissions u ''user'' = is_active u"
  using assms
  by (simp add: get_current_user_def depends_current_user_def get_admin_user_def
                get_moderator_user_def verify_user_permissions_def)

theorem gate_checks_witness:
  "depends_current_user get_admin_user decode_token sample_db (issued_token ''access'' 1)
     = Inr admin_row
   \<and> depends_current_user get_moderator_user decode_token sample_db (issued_token ''access'' 2)
     = Inr editor_row
   \<and> depends_current_user get_admin_user decode_token sample_db (issued_token ''access'' 2)
     = Inl Forbidden
   \<and> depends_current_user get_moderator_user decode_token sample_db (issued_token ''access'' 3)
     = Inl Unauthorized
   \<and> fst (get_current_user decode_token sample_db (issued_token ''access'' 3)) = Inl Unauthorized"
proof -
  have d: "decode_token (issued_token ''access'' k)
             = Inr \<lparr> sub = SubInt k, token_type = Some ''access'' \<rparr>" for k
    by (simp add: decode_token_def issued_token_def)
  have s: "sub \<lparr> sub = SubInt k, token_type = Some ''access'' \<rparr> = SubInt k" for k by simp
  have f1: "find (\<lambda>u. id_col u = 1) sample_db = Some admin_row"
    and f2: "find (\<lambda>u. id_col u = 2) sample_db = Some editor_row"
    and f3: "find (\<lambda>u. id_col u = 3) sample_db = Some retired_row"
    by (simp_all add: sample_db_def admin_row_def editor_row_def retired_row_def)
  show ?thesis
    using gate_checks [where decode = decode_token and token = "issued_token ''access'' 1",
                       OF d s f1]
          gate_checks [where decode = decode_token and token = "issued_token ''access'' 2",
                       OF d s f2]
          gate_checks [where decode = decode_token and token = "issued_token ''access'' 3",
                       OF d s f3]
    by (simp add: admin_row_def editor_row_def retired_row_def)
qed



subsection \<open>Pagination\<close>

text \<open>
  C10. For every pair of integers (skip, limit) the validator returns
  (max 0 skip, max 1 (min limit max_page_size)); so the validated skip is never negative,
  the validated limit is at least 1, and it is at most the configured maximum page size
  (a maximum page size of at least 1, as the declared 100 is).
\<close>

theorem validate_pagination_params_range:
  assumes "1 \<le> max_page_size cfg"
  shows "validate_pagination_params cfg skip limit
           = (max 0 skip, max 1 (min limit (max_page_size cfg)))
         \<and> 0 \<le> fst (validate_pagination_params cfg skip limit)
         \<and> 1 \<le> snd (validate_pagination_params cfg skip limit)
         \<and> snd (validate_pagination_params cfg skip limit) \<le> max_page_size cfg"
  using assms by (simp add: validate_pagination_params_def Let_def)

theorem validate_pagination_params_range_witness:
  "validate_pagination_params settings (-5) 250 = (0, 100)
   \<and> validate_pagination_params settings 7 0 = (7, 1)
   \<and> snd (validate_pagination_params settings (-5) 250) \<le> max_page_size settings"
proof -
  have h: "1 \<le> max_page_size settings" by (simp add: settings_def)
  show ?thesis
    using validate_pagination_params_range [OF h, of "-5" 250]
          validate_pagination_params_range [OF h, of 7 0]
    by (simp add: settings_def)
qed

end
